theory Spec2Isabelle
  imports Main "HOL-Library.AList"
begin

section \<open>Python strings and integers used by the message identifiers\<close>

text \<open>
  \<^verbatim>\<open>lamport_clock.py\<close> builds a message identifier with the f-string
  \<^verbatim>\<open>f"{self.process_id}-{current_lamport}-{message_content}"\<close> and the retransmitter
  takes it apart again with \<^verbatim>\<open>message_id.split('-', 2)\<close> and \<^verbatim>\<open>int(...)\<close>.
  Python integers are unbounded (\<open>int\<close>), strings are \<open>string\<close>.
\<close>

datatype py_error = ValueError

definition digit_char :: "nat \<Rightarrow> char" where
  "digit_char d = ''0123456789'' ! d"

definition is_digit :: "char \<Rightarrow> bool" where
  "is_digit c = (c \<in> set ''0123456789'')"

text \<open>The value of a digit: its position in the digit string.\<close>

definition digit_val :: "char \<Rightarrow> nat" where
  "digit_val c = length (takeWhile (\<lambda>d. d \<noteq> c) ''0123456789'')"

text \<open>The decimal digits of a natural number, most significant first.\<close>

fun digits :: "nat \<Rightarrow> string" where
  "digits n = (if n < 10 then [digit_char n] else digits (n div 10) @ [digit_char (n mod 10)])"

declare digits.simps [simp del]

text \<open>\<^verbatim>\<open>str(i)\<close>, which is what an f-string field \<^verbatim>\<open>{i}\<close> of an integer prints.\<close>

definition str_int :: "int \<Rightarrow> string" where
  "str_int i = (if i < 0 then CHR ''-'' # digits (nat (- i)) else digits (nat i))"

text \<open>
  \<^verbatim>\<open>int(s)\<close> on a string: surrounding ASCII whitespace is stripped, one sign is
  allowed, then decimal digits, where single underscores may stand between digits.
  Anything else raises \<^verbatim>\<open>ValueError\<close>. (CPython's bound on the number of digits of
  such a conversion, 4300 unless configured, is left out: no clock gets there.)
\<close>

definition is_space :: "char \<Rightarrow> bool" where
  "is_space c = (c \<in> set [CHR '' '', CHR 0x09, CHR 0x0A, CHR 0x0B, CHR 0x0C, CHR 0x0D,
                           CHR 0x1C, CHR 0x1D, CHR 0x1E, CHR 0x1F])"

definition strip :: "string \<Rightarrow> string" where
  "strip s = rev (dropWhile is_space (rev (dropWhile is_space s)))"

fun parse_digits :: "string \<Rightarrow> nat \<Rightarrow> nat option" where
  "parse_digits [] acc = Some acc"
| "parse_digits (c # cs) acc =
     (if is_digit c then parse_digits cs (acc * 10 + digit_val c)
      else if c = CHR ''_'' \<and> cs \<noteq> [] \<and> is_digit (hd cs) then parse_digits cs acc
      else None)"

definition parse_nat :: "string \<Rightarrow> nat option" where
  "parse_nat s = (if s \<noteq> [] \<and> is_digit (hd s) then parse_digits s 0 else None)"

definition py_int :: "string \<Rightarrow> py_error + int" where
  "py_int s =
     (case strip s of
        [] \<Rightarrow> Inl ValueError
      | c # cs \<Rightarrow>
          (if c = CHR ''-'' then
             (case parse_nat cs of None \<Rightarrow> Inl ValueError | Some n \<Rightarrow> Inr (- int n))
           else if c = CHR ''+'' then
             (case parse_nat cs of None \<Rightarrow> Inl ValueError | Some n \<Rightarrow> Inr (int n))
           else
             (case parse_nat (c # cs) of None \<Rightarrow> Inl ValueError | Some n \<Rightarrow> Inr (int n))))"

text \<open>
  \<^verbatim>\<open>s.split(sep, maxsplit)\<close> for a one-character separator: at most \<open>maxsplit\<close>
  cuts, from the left; the rest of the string is the last piece.
\<close>

fun split_max :: "char \<Rightarrow> nat \<Rightarrow> string \<Rightarrow> string list" where
  "split_max sep 0 s = [s]"
| "split_max sep (Suc k) s =
     (if sep \<in> set s
      then takeWhile (\<lambda>c. c \<noteq> sep) s # split_max sep k (tl (dropWhile (\<lambda>c. c \<noteq> sep) s))
      else [s])"

section \<open>The ACK-based process of \<^verbatim>\<open>lamport_clock.py\<close>\<close>

definition BASE_PORT :: int where
  "BASE_PORT = 12000"

text \<open>The JSON object \<^verbatim>\<open>_send_message\<close> puts on the wire, key by key.\<close>

record message =
  m_type :: string
  m_message_id :: string
  m_content :: string
  m_sender_id :: int
  m_lamport :: int

type_synonym addr = "string \<times> int"

text \<open>The dictionary stored under a message identifier in \<^verbatim>\<open>buffer_messages\<close>.\<close>

record buffer_entry =
  b_content :: string
  b_sender_id :: int
  b_lamport :: int

text \<open>
  What a call leaves outside the process: a datagram handed to the socket
  (\<^verbatim>\<open>socket.sendto\<close>), or the application-level delivery \<^verbatim>\<open>r_deliver\<close> reports
  (its arguments: message identifier, content, the message's Lamport timestamp).
\<close>

datatype action =
    Send message addr
  | Deliver string string int

text \<open>
  The fields of \<^verbatim>\<open>ReliableMulticastProcess\<close>. \<^verbatim>\<open>pending_acks\<close> is a dictionary
  (insertion-ordered, as Python's are) from a message identifier to the set of process
  identifiers whose ACK is missing: an association list, whose keys
  \<^verbatim>\<open>list(self.pending_acks.keys())\<close> walks in order, to duplicate-free lists of
  identifiers. \<open>retransmitter_alive\<close> is the state of \<^verbatim>\<open>retransmitter_thread\<close>: an
  exception that escapes \<^verbatim>\<open>_retransmit_messages\<close> ends that thread.
\<close>

record rm_process =
  process_id :: int
  total_processes :: int
  lamport_clock :: int
  delivered_messages :: "string set"
  pending_acks :: "(string \<times> int list) list"
  buffer_messages :: "string \<rightharpoonup> buffer_entry"
  retransmitter_alive :: bool

definition init :: "int \<Rightarrow> int \<Rightarrow> rm_process" where
  "init pid n =
     \<lparr> process_id = pid, total_processes = n, lamport_clock = 0,
       delivered_messages = {}, pending_acks = [], buffer_messages = Map.empty,
       retransmitter_alive = True \<rparr>"

text \<open>\<^verbatim>\<open>range(n)\<close> for an integer \<open>n\<close>: empty when \<open>n \<le> 0\<close>.\<close>

definition range_py :: "int \<Rightarrow> int list" where
  "range_py n = [0..n - 1]"

definition increment_lamport_clock :: "rm_process \<Rightarrow> rm_process \<times> int" where
  "increment_lamport_clock st =
     (let st' = st\<lparr>lamport_clock := lamport_clock st + 1\<rparr> in (st', lamport_clock st'))"

definition update_lamport_clock :: "rm_process \<Rightarrow> int \<Rightarrow> rm_process \<times> int" where
  "update_lamport_clock st received_lamport_timestamp =
     (let st' = st\<lparr>lamport_clock := max (lamport_clock st) received_lamport_timestamp + 1\<rparr>
      in (st', lamport_clock st'))"

text \<open>
  \<^verbatim>\<open>_send_message\<close>: the datagram and its target. A failing \<^verbatim>\<open>sendto\<close> is caught
  and printed there, so the caller never sees it.
\<close>

definition send_message ::
  "string \<Rightarrow> string \<Rightarrow> string \<Rightarrow> int \<Rightarrow> int \<Rightarrow> addr \<Rightarrow> action" where
  "send_message message_type message_id content sender_id lamport_timestamp target_addr =
     Send \<lparr> m_type = message_type, m_message_id = message_id, m_content = content,
            m_sender_id = sender_id, m_lamport = lamport_timestamp \<rparr> target_addr"

definition peer_addr :: "int \<Rightarrow> addr" where
  "peer_addr i = (''127.0.0.1'', BASE_PORT + i)"

definition mk_message_id :: "int \<Rightarrow> int \<Rightarrow> string \<Rightarrow> string" where
  "mk_message_id pid current_lamport message_content =
     str_int pid @ ''-'' @ str_int current_lamport @ ''-'' @ message_content"

definition r_multicast :: "rm_process \<Rightarrow> string \<Rightarrow> rm_process \<times> action list" where
  "r_multicast st message_content =
     (let (st1, current_lamport) = increment_lamport_clock st;
          message_id = mk_message_id (process_id st1) current_lamport message_content;
          st2 = st1\<lparr>pending_acks :=
                  AList.update message_id (range_py (total_processes st1)) (pending_acks st1)\<rparr>
      in (st2,
          map (\<lambda>i. send_message ''DATA'' message_id message_content (process_id st2)
                      current_lamport (peer_addr i))
              (range_py (total_processes st2))))"

definition r_deliver ::
  "rm_process \<Rightarrow> string \<Rightarrow> string \<Rightarrow> int \<Rightarrow> rm_process \<times> action list" where
  "r_deliver st message_id original_content lamport_timestamp =
     (fst (update_lamport_clock st lamport_timestamp),
      [Deliver message_id original_content lamport_timestamp])"

text \<open>
  \<^verbatim>\<open>_on_message_received\<close>. Its last parameter, the datagram's source address, is only
  printed and is left out.
\<close>

definition on_message_received ::
  "rm_process \<Rightarrow> string \<Rightarrow> string \<Rightarrow> int \<Rightarrow> int \<Rightarrow> rm_process \<times> action list" where
  "on_message_received st message_id msg_content original_sender_id original_lamport =
     (let st1 = fst (update_lamport_clock st original_lamport) in
      if message_id \<notin> delivered_messages st1 then
        (let st2 = st1\<lparr>delivered_messages := insert message_id (delivered_messages st1)\<rparr>;
             st3 = st2\<lparr>buffer_messages := (buffer_messages st2)(message_id \<mapsto>
                      \<lparr> b_content = msg_content, b_sender_id = original_sender_id,
                        b_lamport = original_lamport \<rparr>)\<rparr>;
             (st4, delivered) = r_deliver st3 message_id msg_content original_lamport
         in (st4, delivered @
               [send_message ''ACK'' message_id '''' (process_id st4) (lamport_clock st4)
                  (peer_addr original_sender_id)]))
      else
        (st1, [send_message ''ACK'' message_id '''' (process_id st1) (lamport_clock st1)
                 (peer_addr original_sender_id)]))"

text \<open>
  \<^verbatim>\<open>_on_ack_received\<close>. \<^verbatim>\<open>message_id in self.pending_acks\<close> does not create an entry
  of the \<^verbatim>\<open>defaultdict\<close>; \<^verbatim>\<open>set.remove\<close> of a member cannot raise.
\<close>

definition on_ack_received :: "rm_process \<Rightarrow> string \<Rightarrow> int \<Rightarrow> rm_process" where
  "on_ack_received st message_id ack_sender_id =
     (let st1 = fst (increment_lamport_clock st) in
      case map_of (pending_acks st1) message_id of
        None \<Rightarrow> st1
      | Some peers \<Rightarrow>
          if ack_sender_id \<in> set peers then
            (let peers' = removeAll ack_sender_id peers in
             if peers' = []
             then st1\<lparr>pending_acks := AList.delete message_id (pending_acks st1)\<rparr>
             else st1\<lparr>pending_acks := AList.update message_id peers' (pending_acks st1)\<rparr>)
          else st1)"

text \<open>
  Reading \<^verbatim>\<open>self.pending_acks[message_id]\<close>: the \<^verbatim>\<open>defaultdict\<close> answers a missing
  key with the empty set. (The retransmitter only reads keys it has just listed.)
\<close>

definition pending_of :: "(string \<times> int list) list \<Rightarrow> string \<Rightarrow> int list" where
  "pending_of pa message_id = (case map_of pa message_id of None \<Rightarrow> [] | Some peers \<Rightarrow> peers)"

text \<open>
  The body of the retransmitter's \<^verbatim>\<open>for message_id in list(self.pending_acks.keys())\<close>.
  Unpacking the split into three names raises \<^verbatim>\<open>ValueError\<close> when there are fewer
  than three pieces, and so does \<^verbatim>\<open>int\<close> on a piece that is no integer; both
  happen before anything is sent for this identifier.
\<close>

definition retransmit_one :: "rm_process \<Rightarrow> string \<Rightarrow> py_error + action list" where
  "retransmit_one st message_id =
     (if pending_of (pending_acks st) message_id \<noteq> [] then
        (case split_max CHR ''-'' 2 message_id of
           [original_sender_id_str, original_lamport_str, msg_content_part] \<Rightarrow>
             (case py_int original_sender_id_str of
                Inl e \<Rightarrow> Inl e
              | Inr original_sender_id \<Rightarrow>
                  (case py_int original_lamport_str of
                     Inl e \<Rightarrow> Inl e
                   | Inr original_lamport \<Rightarrow>
                       if original_sender_id = process_id st then
                         Inr (map (\<lambda>target_id. send_message ''DATA'' message_id msg_content_part
                                     original_sender_id original_lamport (peer_addr target_id))
                                (pending_of (pending_acks st) message_id))
                       else Inr []))
         | _ \<Rightarrow> Inl ValueError)
      else Inr [])"

text \<open>The \<^verbatim>\<open>for\<close> loop over the listed keys: what was sent, and the exception that ended it, if any.\<close>

fun retransmit_loop :: "rm_process \<Rightarrow> string list \<Rightarrow> action list \<times> py_error option" where
  "retransmit_loop st [] = ([], None)"
| "retransmit_loop st (message_id # ks) =
     (case retransmit_one st message_id of
        Inl e \<Rightarrow> ([], Some e)
      | Inr sent \<Rightarrow> (let (sent', r) = retransmit_loop st ks in (sent @ sent', r)))"

text \<open>
  One round of \<^verbatim>\<open>_retransmit_messages\<close> (one pass of its \<^verbatim>\<open>while True\<close>, after the
  sleep). Nothing catches an exception there: it ends the thread, and a dead thread
  runs no further round.
\<close>

definition retransmit_messages :: "rm_process \<Rightarrow> rm_process \<times> action list" where
  "retransmit_messages st =
     (if retransmitter_alive st then
        (let (sent, r) = retransmit_loop st (map fst (pending_acks st))
         in (st\<lparr>retransmitter_alive := (r = None)\<rparr>, sent))
      else (st, []))"

text \<open>
  One datagram through \<^verbatim>\<open>_listen_for_messages\<close>: DATA goes to
  \<^verbatim>\<open>_on_message_received\<close>, ACK to \<^verbatim>\<open>_on_ack_received\<close> (with the datagram's
  \<^verbatim>\<open>sender_id\<close> as the acknowledging process), any other type is dropped.
\<close>

definition listen_for_messages :: "rm_process \<Rightarrow> message \<Rightarrow> rm_process \<times> action list" where
  "listen_for_messages st received_message =
     (if m_type received_message = ''DATA'' then
        on_message_received st (m_message_id received_message) (m_content received_message)
          (m_sender_id received_message) (m_lamport received_message)
      else if m_type received_message = ''ACK'' then
        (on_ack_received st (m_message_id received_message) (m_sender_id received_message), [])
      else (st, []))"

text \<open>A run of ACK datagrams (message identifier, acknowledging process), one after the other.\<close>

definition receive_acks :: "rm_process \<Rightarrow> (string \<times> int) list \<Rightarrow> rm_process" where
  "receive_acks st acks =
     fold (\<lambda>(message_id, ack_sender_id) s. on_ack_received s message_id ack_sender_id) acks st"

subsection \<open>A process's lifetime\<close>

text \<open>
  What happens to one process: the application calls \<^verbatim>\<open>r_multicast\<close>, the listener
  thread takes a datagram, or the retransmitter thread wakes up. A lifetime is a list
  of such events, handled one after the other; its trace keeps, for each event, the
  state it met and what it left outside.
\<close>

datatype event = Multicast string | Receive message | RetransmitTick

fun step :: "rm_process \<Rightarrow> event \<Rightarrow> rm_process \<times> action list" where
  "step st (Multicast message_content) = r_multicast st message_content"
| "step st (Receive received_message) = listen_for_messages st received_message"
| "step st RetransmitTick = retransmit_messages st"

fun trace :: "rm_process \<Rightarrow> event list \<Rightarrow> (rm_process \<times> event \<times> action list) list" where
  "trace st [] = []"
| "trace st (e # es) = (st, e, snd (step st e)) # trace (fst (step st e)) es"

definition final :: "rm_process \<Rightarrow> event list \<Rightarrow> rm_process" where
  "final st es = fold (\<lambda>e s. fst (step s e)) es st"

definition outputs :: "(rm_process \<times> event \<times> action list) list \<Rightarrow> action list" where
  "outputs tr = concat (map (\<lambda>(st, e, outs). outs) tr)"

fun delivered_id :: "action \<Rightarrow> string list" where
  "delivered_id (Deliver message_id original_content lamport_timestamp) = [message_id]"
| "delivered_id (Send m a) = []"

text \<open>The message identifiers \<^verbatim>\<open>r_deliver\<close> was called with, in order.\<close>

definition delivered_ids :: "action list \<Rightarrow> string list" where
  "delivered_ids outs = concat (map delivered_id outs)"

fun is_deliver :: "action \<Rightarrow> bool" where
  "is_deliver (Deliver message_id original_content lamport_timestamp) = True"
| "is_deliver (Send m a) = False"






text \<open>
  Every datagram a retransmission round sends was sent before by a multicast of this
  process, to the same address; \<open>hist\<close> is what the multicasts so far have sent.
\<close>

fun retransmissions_original ::
  "action list \<Rightarrow> (rm_process \<times> event \<times> action list) list \<Rightarrow> bool" where
  "retransmissions_original hist [] = True"
| "retransmissions_original hist ((st, Multicast c, outs) # tr) =
     retransmissions_original (hist @ outs) tr"
| "retransmissions_original hist ((st, Receive m, outs) # tr) =
     retransmissions_original hist tr"
| "retransmissions_original hist ((st, RetransmitTick, outs) # tr) =
     (list_all (\<lambda>a. a \<in> set hist) outs \<and> retransmissions_original hist tr)"

text \<open>
  The invariant behind retransmission: the process identifier and the clock are not
  negative, and every key of \<^verbatim>\<open>pending_acks\<close> was made by a multicast of this process,
  whose datagrams to the peers still pending are among \<open>hist\<close>.
\<close>

definition own_pending :: "action list \<Rightarrow> rm_process \<Rightarrow> bool" where
  "own_pending hist st =
     (0 \<le> process_id st \<and> 0 \<le> lamport_clock st \<and>
      (\<forall>k peers. map_of (pending_acks st) k = Some peers \<longrightarrow>
         (\<exists>ts c. 0 \<le> ts \<and> k = mk_message_id (process_id st) ts c \<and>
            (\<forall>p \<in> set peers.
               send_message ''DATA'' k c (process_id st) ts (peer_addr p) \<in> set hist))))"

section \<open>The gossip process of \<^verbatim>\<open>reliable_multicast_lamport.py\<close>\<close>

text \<open>The dictionary \<^verbatim>\<open>multicast\<close> builds and \<^verbatim>\<open>handle_receive\<close> reads.\<close>

record gossip_message =
  g_content :: string
  g_timestamp :: int
  g_original_sender :: int


text \<open>
  What a call leaves outside the process: a message put into the queue of process
  \<open>i\<close>, or the delivery line (content, original sender, timestamp).
\<close>

datatype gossip_action =
    Put nat gossip_message
  | Delivered string int int

text \<open>
  The fields of \<^verbatim>\<open>Processo\<close>; \<open>num_queues\<close> is \<^verbatim>\<open>len(self.all_queues)\<close>, the queues
  themselves belong to all processes together.
\<close>

record processo =
  id_p :: int
  num_queues :: nat
  lamport_clock_p :: int
  delivered_messages_p :: "(int \<times> int) set"
  running :: bool



definition basic_multicast :: "processo \<Rightarrow> gossip_message \<Rightarrow> gossip_action list" where
  "basic_multicast p message = map (\<lambda>i. Put i message) [0..<num_queues p]"

definition handle_receive :: "processo \<Rightarrow> gossip_message \<Rightarrow> processo \<times> gossip_action list" where
  "handle_receive p received_message =
     (let original_sender = g_original_sender received_message;
          timestamp = g_timestamp received_message;
          content = g_content received_message;
          message_unique_id = (original_sender, timestamp)
      in if message_unique_id \<in> delivered_messages_p p then (p, [])
         else
           (let p1 = p\<lparr>lamport_clock_p := max (lamport_clock_p p) timestamp + 1\<rparr>;
                p2 = p1\<lparr>delivered_messages_p := insert message_unique_id (delivered_messages_p p1)\<rparr>
            in (p2, Delivered content original_sender timestamp # basic_multicast p2 received_message)))"









fun is_delivered :: "gossip_action \<Rightarrow> bool" where
  "is_delivered (Delivered content original_sender timestamp) = True"
| "is_delivered (Put i m) = False"


section \<open>Identifier strings: printing and parsing agree\<close>

lemma lt10_cases: "(d::nat) < 10 \<Longrightarrow> d \<in> {0, 1, 2, 3, 4, 5, 6, 7, 8, 9}"
  by auto

lemma digit_val_digit_char: "d < 10 \<Longrightarrow> digit_val (digit_char d) = d"
  by (drule lt10_cases) (auto simp: digit_val_def digit_char_def)

lemma is_digit_digit_char: "d < 10 \<Longrightarrow> is_digit (digit_char d)"
  by (drule lt10_cases) (auto simp: is_digit_def digit_char_def)

lemma digits_all_digit: "list_all is_digit (digits n)"
proof (induction n rule: digits.induct)
  case (1 n)
  show ?case
  proof (cases "n < 10")
    case True
    then show ?thesis by (simp add: digits.simps [of n] is_digit_digit_char)
  next
    case False
    with 1 show ?thesis by (simp add: digits.simps [of n] is_digit_digit_char)
  qed
qed

lemma digits_not_Nil: "digits n \<noteq> []"
  by (simp add: digits.simps [of n])

lemma parse_digits_all_digit:
  "list_all is_digit ds \<Longrightarrow>
   parse_digits ds acc = Some (fold (\<lambda>c a. a * 10 + digit_val c) ds acc)"
  by (induction ds arbitrary: acc) auto

lemma fold_digits: "fold (\<lambda>c a. a * 10 + digit_val c) (digits n) 0 = n"
proof (induction n rule: digits.induct)
  case (1 n)
  show ?case
  proof (cases "n < 10")
    case True
    then show ?thesis by (simp add: digits.simps [of n] digit_val_digit_char)
  next
    case False
    with 1 show ?thesis by (simp add: digits.simps [of n] digit_val_digit_char)
  qed
qed

lemma hd_digits_digit: "is_digit (hd (digits n))"
  using digits_all_digit [of n] digits_not_Nil [of n]
  by (cases "digits n") auto

lemma parse_nat_digits: "parse_nat (digits n) = Some n"
  by (simp add: parse_nat_def digits_not_Nil hd_digits_digit
      parse_digits_all_digit [OF digits_all_digit] fold_digits)

lemma digit_not_space: "is_digit c \<Longrightarrow> \<not> is_space c"
  by (auto simp: is_digit_def is_space_def)

lemma digit_not_minus: "is_digit c \<Longrightarrow> c \<noteq> CHR ''-''"
  by (auto simp: is_digit_def)

lemma digit_not_plus: "is_digit c \<Longrightarrow> c \<noteq> CHR ''+''"
  by (auto simp: is_digit_def)

lemma strip_id:
  assumes "s \<noteq> []" "\<not> is_space (hd s)" "\<not> is_space (last s)"
  shows "strip s = s"
proof -
  have "dropWhile is_space s = s"
    using assms(2) by (simp add: dropWhile_eq_self_iff)
  moreover have "dropWhile is_space (rev s) = rev s"
    using assms(1,3) by (simp add: dropWhile_eq_self_iff hd_rev)
  ultimately show ?thesis by (simp add: strip_def)
qed

lemma last_digits_digit: "is_digit (last (digits n))"
  using digits_all_digit [of n] digits_not_Nil [of n]
  by (simp add: list_all_iff)

lemma py_int_str_int: "py_int (str_int i) = Inr i"
proof (cases "i < 0")
  case True
  have "strip (CHR ''-'' # digits (nat (- i))) = CHR ''-'' # digits (nat (- i))"
    by (rule strip_id) (simp_all add: digits_not_Nil digit_not_space last_digits_digit, simp add: is_space_def)
  with True show ?thesis
    by (simp add: py_int_def str_int_def parse_nat_digits)
next
  case False
  have s: "strip (digits (nat i)) = digits (nat i)"
    by (rule strip_id) (simp_all add: digits_not_Nil digit_not_space last_digits_digit hd_digits_digit)
  obtain c cs where d: "digits (nat i) = c # cs"
    using digits_not_Nil [of "nat i"] by (cases "digits (nat i)") auto
  have c: "is_digit c" using hd_digits_digit [of "nat i"] d by simp
  have "parse_nat (c # cs) = Some (nat i)" using parse_nat_digits [of "nat i"] d by simp
  with False s d c show ?thesis
    by (simp add: py_int_def str_int_def digit_not_minus digit_not_plus)
qed

lemma str_int_inj:
  assumes "str_int i = str_int j"
  shows "i = j"
proof -
  have "(Inr i :: py_error + int) = py_int (str_int i)" by (simp only: py_int_str_int)
  also have "\<dots> = py_int (str_int j)" by (simp only: assms)
  also have "\<dots> = Inr j" by (simp only: py_int_str_int)
  finally show ?thesis by simp
qed

lemma minus_notin_str_int: "0 \<le> i \<Longrightarrow> CHR ''-'' \<notin> set (str_int i)"
  using digits_all_digit [of "nat i"]
  by (auto simp: str_int_def list_all_iff dest: digit_not_minus)

lemma split_max_Suc_append:
  "sep \<notin> set a \<Longrightarrow> split_max sep (Suc k) (a @ sep # rest) = a # split_max sep k rest"
proof -
  assume a: "sep \<notin> set a"
  have t: "takeWhile (\<lambda>c. c \<noteq> sep) (a @ sep # rest) = a"
    using a by (subst takeWhile_append2) auto
  have d: "dropWhile (\<lambda>c. c \<noteq> sep) (a @ sep # rest) = sep # rest"
    using a by (subst dropWhile_append2) auto
  show ?thesis by (simp only: split_max.simps t d) simp
qed

lemma split_mk_message_id:
  "0 \<le> s \<Longrightarrow> 0 \<le> t \<Longrightarrow>
   split_max CHR ''-'' 2 (mk_message_id s t c) = [str_int s, str_int t, c]"
  by (simp add: mk_message_id_def numeral_2_eq_2 split_max_Suc_append minus_notin_str_int
      del: split_max.simps(2))

lemma mk_message_id_inj:
  assumes "0 \<le> s" "0 \<le> t" "0 \<le> s'" "0 \<le> t'"
  shows "mk_message_id s t c = mk_message_id s' t' c' \<longleftrightarrow> s = s' \<and> t = t' \<and> c = c'"
proof
  assume "mk_message_id s t c = mk_message_id s' t' c'"
  then have "[str_int s, str_int t, c] = [str_int s', str_int t', c']"
    using split_mk_message_id [OF assms(1,2), of c] split_mk_message_id [OF assms(3,4), of c']
    by simp
  then show "s = s' \<and> t = t' \<and> c = c'" by (auto dest: str_int_inj)
qed auto

section \<open>Single calls\<close>

lemma set_range_py: "set (range_py n) = {0..n - 1}"
  by (simp add: range_py_def)

lemma on_message_received_duplicate:
  assumes "message_id \<in> delivered_messages st"
  shows "on_message_received st message_id msg_content original_sender_id original_lamport =
     (st\<lparr>lamport_clock := max (lamport_clock st) original_lamport + 1\<rparr>,
      [Send \<lparr> m_type = ''ACK'', m_message_id = message_id, m_content = '''',
               m_sender_id = process_id st,
               m_lamport = max (lamport_clock st) original_lamport + 1 \<rparr>
            (peer_addr original_sender_id)])"
  using assms
  by (simp add: on_message_received_def update_lamport_clock_def Let_def send_message_def)

lemma on_message_received_fresh:
  assumes "message_id \<notin> delivered_messages st"
  shows "on_message_received st message_id msg_content original_sender_id original_lamport =
     (st\<lparr>lamport_clock := max (lamport_clock st) original_lamport + 2,
         delivered_messages := insert message_id (delivered_messages st),
         buffer_messages := (buffer_messages st)(message_id \<mapsto>
            \<lparr> b_content = msg_content, b_sender_id = original_sender_id,
              b_lamport = original_lamport \<rparr>)\<rparr>,
      [Deliver message_id msg_content original_lamport,
       Send \<lparr> m_type = ''ACK'', m_message_id = message_id, m_content = '''',
               m_sender_id = process_id st,
               m_lamport = max (lamport_clock st) original_lamport + 2 \<rparr>
            (peer_addr original_sender_id)])"
  using assms
  by (simp add: on_message_received_def update_lamport_clock_def r_deliver_def Let_def
      send_message_def max_def)

lemma handle_receive_duplicate:
  "(g_original_sender m, g_timestamp m) \<in> delivered_messages_p p \<Longrightarrow> handle_receive p m = (p, [])"
  by (simp add: handle_receive_def Let_def)

lemma handle_receive_fresh:
  "(g_original_sender m, g_timestamp m) \<notin> delivered_messages_p p \<Longrightarrow>
   handle_receive p m =
     (p\<lparr>lamport_clock_p := max (lamport_clock_p p) (g_timestamp m) + 1,
        delivered_messages_p := insert (g_original_sender m, g_timestamp m) (delivered_messages_p p)\<rparr>,
      Delivered (g_content m) (g_original_sender m) (g_timestamp m) #
        map (\<lambda>i. Put i m) [0..<num_queues p])"
  by (simp add: handle_receive_def Let_def basic_multicast_def)

section \<open>Lifetimes: what is delivered\<close>

lemma delivered_ids_append: "delivered_ids (xs @ ys) = delivered_ids xs @ delivered_ids ys"
  by (simp add: delivered_ids_def)

lemma delivered_ids_sends: "delivered_ids (map (\<lambda>i. send_message ty k c s t (f i)) xs) = []"
  by (induction xs) (auto simp: delivered_ids_def send_message_def)

lemma delivered_ids_Nil: "delivered_ids [] = []"
  by (simp add: delivered_ids_def)

lemma retransmit_one_sends: "retransmit_one st k = Inr sent \<Longrightarrow> delivered_ids sent = []"
  by (auto simp: retransmit_one_def delivered_ids_sends delivered_ids_Nil
      split: if_splits list.splits sum.splits)

lemma retransmit_loop_sends: "delivered_ids (fst (retransmit_loop st ks)) = []"
  by (induction ks)
     (auto simp: delivered_ids_append retransmit_one_sends delivered_ids_Nil
       split: sum.splits prod.splits)

lemma retransmit_messages_sends: "delivered_ids (snd (retransmit_messages st)) = []"
  using retransmit_loop_sends [of st "map fst (pending_acks st)"]
  by (auto simp: retransmit_messages_def delivered_ids_Nil split: prod.splits)

lemma r_multicast_sends: "delivered_ids (snd (r_multicast st c)) = []"
  by (simp add: r_multicast_def Let_def delivered_ids_sends split: prod.splits)

lemma delivered_r_multicast: "delivered_messages (fst (r_multicast st c)) = delivered_messages st"
  by (simp add: r_multicast_def increment_lamport_clock_def Let_def)

lemma delivered_on_ack: "delivered_messages (on_ack_received st k a) = delivered_messages st"
  by (simp add: on_ack_received_def increment_lamport_clock_def Let_def split: option.splits)

lemma delivered_retransmit:
  "delivered_messages (fst (retransmit_messages st)) = delivered_messages st"
  by (simp add: retransmit_messages_def split: prod.splits)

lemma step_delivered:
  "distinct (delivered_ids (snd (step st e)))
   \<and> set (delivered_ids (snd (step st e))) \<inter> delivered_messages st = {}
   \<and> delivered_messages (fst (step st e))
       = delivered_messages st \<union> set (delivered_ids (snd (step st e)))"
proof (cases e)
  case (Multicast c)
  then show ?thesis by (simp add: r_multicast_sends delivered_r_multicast)
next
  case (Receive m)
  show ?thesis
  proof (cases "m_type m = ''DATA''")
    case True
    then show ?thesis using Receive
      by (cases "m_message_id m \<in> delivered_messages st")
         (auto simp: listen_for_messages_def on_message_received_duplicate
           on_message_received_fresh delivered_ids_def)
  next
    case False
    then show ?thesis using Receive
      by (simp add: listen_for_messages_def delivered_on_ack delivered_ids_def)
  qed
next
  case RetransmitTick
  then show ?thesis by (simp add: retransmit_messages_sends delivered_retransmit)
qed

lemma outputs_Cons: "outputs ((st, e, outs) # tr) = outs @ outputs tr"
  by (simp add: outputs_def)


lemma delivered_step_mono: "delivered_messages st \<subseteq> delivered_messages (fst (step st e))"
  using step_delivered [of st e] by blast













section \<open>Lifetimes: the clocks\<close>









section \<open>Lifetimes: the buffer\<close>

lemma final_Nil: "final st [] = st"
  by (simp add: final_def)

lemma final_Cons: "final st (e # es) = final (fst (step st e)) es"
  by (simp add: final_def)

lemma buffer_r_multicast: "buffer_messages (fst (r_multicast st c)) = buffer_messages st"
  by (simp add: r_multicast_def increment_lamport_clock_def Let_def)

lemma buffer_on_ack: "buffer_messages (on_ack_received st k a) = buffer_messages st"
  by (simp add: on_ack_received_def increment_lamport_clock_def Let_def split: option.splits)

lemma buffer_retransmit: "buffer_messages (fst (retransmit_messages st)) = buffer_messages st"
  by (simp add: retransmit_messages_def split: prod.splits)

lemma buffer_step:
  "buffer_messages (fst (step st e)) = buffer_messages st
   \<or> (\<exists>k v. k \<notin> delivered_messages st \<and> k \<in> delivered_messages (fst (step st e))
         \<and> buffer_messages (fst (step st e)) = (buffer_messages st)(k \<mapsto> v))"
proof (cases e)
  case (Multicast c)
  then show ?thesis by (simp add: buffer_r_multicast)
next
  case (Receive m)
  then show ?thesis
    by (cases "m_message_id m \<in> delivered_messages st")
       (auto simp: listen_for_messages_def on_message_received_duplicate
          on_message_received_fresh buffer_on_ack)
next
  case RetransmitTick
  then show ?thesis by (simp add: buffer_retransmit)
qed

lemma buffer_step_dom: "dom (buffer_messages st) \<subseteq> dom (buffer_messages (fst (step st e)))"
  using buffer_step [of st e] by auto

lemma buffer_final_dom: "dom (buffer_messages st) \<subseteq> dom (buffer_messages (final st es))"
proof (induction es arbitrary: st)
  case Nil
  then show ?case by (simp add: final_Nil)
next
  case (Cons e es)
  from buffer_step_dom [of st e] Cons.IH [of "fst (step st e)"] show ?case
    by (auto simp: final_Cons)
qed

lemma buffer_step_le:
  assumes "dom (buffer_messages st) \<subseteq> delivered_messages st"
  shows "buffer_messages st \<subseteq>\<^sub>m buffer_messages (fst (step st e))
    \<and> dom (buffer_messages (fst (step st e))) \<subseteq> delivered_messages (fst (step st e))"
proof -
  from buffer_step [of st e] show ?thesis
  proof
    assume "buffer_messages (fst (step st e)) = buffer_messages st"
    with assms delivered_step_mono [of st e] show ?thesis by auto
  next
    assume "\<exists>k v. k \<notin> delivered_messages st \<and> k \<in> delivered_messages (fst (step st e))
         \<and> buffer_messages (fst (step st e)) = (buffer_messages st)(k \<mapsto> v)"
    then obtain k v where k: "k \<notin> delivered_messages st"
      and k': "k \<in> delivered_messages (fst (step st e))"
      and b: "buffer_messages (fst (step st e)) = (buffer_messages st)(k \<mapsto> v)"
      by blast
    from k assms have "k \<notin> dom (buffer_messages st)" by blast
    then have "buffer_messages st \<subseteq>\<^sub>m (buffer_messages st)(k \<mapsto> v)"
      by (simp add: map_le_def)
    moreover have "dom ((buffer_messages st)(k \<mapsto> v)) \<subseteq> delivered_messages (fst (step st e))"
      using assms k' delivered_step_mono [of st e] by auto
    ultimately show ?thesis by (simp add: b)
  qed
qed

lemma buffer_final_le:
  "dom (buffer_messages st) \<subseteq> delivered_messages st \<Longrightarrow>
   buffer_messages st \<subseteq>\<^sub>m buffer_messages (final st es)"
proof (induction es arbitrary: st)
  case Nil
  then show ?case by (simp add: final_Nil)
next
  case (Cons e es)
  from buffer_step_le [OF Cons.prems, of e]
  have 1: "buffer_messages st \<subseteq>\<^sub>m buffer_messages (fst (step st e))"
    and 2: "dom (buffer_messages (fst (step st e))) \<subseteq> delivered_messages (fst (step st e))"
    by blast+
  from map_le_trans [OF 1 Cons.IH [OF 2]] show ?case
    by (simp add: final_Cons)
qed

lemma retransmit_one_ignores_buffer:
  "retransmit_one (st\<lparr>buffer_messages := b\<rparr>) k = retransmit_one st k"
  by (simp add: retransmit_one_def split: list.splits sum.splits)

lemma retransmit_loop_ignores_buffer:
  "retransmit_loop (st\<lparr>buffer_messages := b\<rparr>) ks = retransmit_loop st ks"
  by (induction ks) (simp_all add: retransmit_one_ignores_buffer split: sum.splits)

lemma step_ignores_buffer:
  "snd (step (st\<lparr>buffer_messages := b\<rparr>) e) = snd (step st e)
   \<and> fst (step (st\<lparr>buffer_messages := b\<rparr>) e)
       = (fst (step st e))\<lparr>buffer_messages :=
            buffer_messages (fst (step (st\<lparr>buffer_messages := b\<rparr>) e))\<rparr>"
proof (cases e)
  case (Multicast c)
  then show ?thesis
    by (simp add: r_multicast_def increment_lamport_clock_def Let_def)
next
  case (Receive m)
  then show ?thesis
    by (cases "m_message_id m \<in> delivered_messages st")
       (auto simp: listen_for_messages_def on_message_received_duplicate
          on_message_received_fresh on_ack_received_def increment_lamport_clock_def Let_def
          split: option.splits)
next
  case RetransmitTick
  then show ?thesis
    by (simp add: retransmit_messages_def retransmit_loop_ignores_buffer split: prod.splits)
qed

lemma trace_ignores_buffer:
  "outputs (trace (st\<lparr>buffer_messages := b\<rparr>) es) = outputs (trace st es)
   \<and> (final (st\<lparr>buffer_messages := b\<rparr>) es)\<lparr>buffer_messages := Map.empty\<rparr>
       = (final st es)\<lparr>buffer_messages := Map.empty\<rparr>"
proof (induction es arbitrary: st b)
  case Nil
  then show ?case by (simp add: final_Nil)
next
  case (Cons e es)
  define b' where "b' = buffer_messages (fst (step (st\<lparr>buffer_messages := b\<rparr>) e))"
  from step_ignores_buffer [where st = st and b = b and e = e]
  have o: "snd (step (st\<lparr>buffer_messages := b\<rparr>) e) = snd (step st e)"
    and s: "fst (step (st\<lparr>buffer_messages := b\<rparr>) e) = (fst (step st e))\<lparr>buffer_messages := b'\<rparr>"
    unfolding b'_def by blast+
  from Cons.IH [where st = "fst (step st e)" and b = b'] show ?case
    by (simp add: final_Cons outputs_Cons o s)
qed

section \<open>Acknowledgements\<close>

lemma pending_on_ack_absent:
  "map_of (pending_acks st) k = None \<Longrightarrow> pending_acks (on_ack_received st k a) = pending_acks st"
  by (simp add: on_ack_received_def increment_lamport_clock_def Let_def)

lemma pending_on_ack_present:
  assumes "map_of (pending_acks st) k = Some peers"
  shows "map_of (pending_acks (on_ack_received st k a)) =
     (map_of (pending_acks st))
       (k := if a \<in> set peers \<and> removeAll a peers = [] then None
             else Some (removeAll a peers))"
proof (cases "a \<in> set peers")
  case True
  with assms show ?thesis
    by (simp add: on_ack_received_def increment_lamport_clock_def Let_def
        delete_conv' update_conv')
next
  case False
  then have "removeAll a peers = peers" by simp
  moreover have "(map_of (pending_acks st))(k \<mapsto> peers) = map_of (pending_acks st)"
    using assms by (simp add: fun_upd_idem)
  ultimately show ?thesis using assms False
    by (simp add: on_ack_received_def increment_lamport_clock_def Let_def)
qed

lemma pending_on_ack_other:
  "k \<noteq> k' \<Longrightarrow>
   map_of (pending_acks (on_ack_received st k' a)) k = map_of (pending_acks st) k"
proof (cases "map_of (pending_acks st) k'")
  case None
  then show ?thesis by (simp add: pending_on_ack_absent)
next
  case (Some peers)
  assume "k \<noteq> k'"
  then show ?thesis by (simp add: pending_on_ack_present [OF Some])
qed

lemma receive_acks_Nil: "receive_acks st [] = st"
  by (simp add: receive_acks_def)

lemma receive_acks_Cons:
  "receive_acks st ((k, a) # acks) = receive_acks (on_ack_received st k a) acks"
  by (simp add: receive_acks_def)

lemma receive_acks_absent:
  "map_of (pending_acks st) k = None \<Longrightarrow> map_of (pending_acks (receive_acks st acks)) k = None"
proof (induction acks arbitrary: st)
  case Nil
  then show ?case by (simp add: receive_acks_Nil)
next
  case (Cons x acks)
  obtain k' a where x: "x = (k', a)" by (cases x)
  have "map_of (pending_acks (on_ack_received st k' a)) k = None"
  proof (cases "k = k'")
    case True
    with Cons.prems show ?thesis by (simp add: pending_on_ack_absent)
  next
    case False
    with Cons.prems show ?thesis by (simp add: pending_on_ack_other)
  qed
  from Cons.IH [OF this] show ?case by (simp add: x receive_acks_Cons)
qed

lemma receive_acks_present:
  "map_of (pending_acks st) k = Some peers \<Longrightarrow> peers \<noteq> [] \<Longrightarrow>
   map_of (pending_acks (receive_acks st acks)) k =
     (if set peers \<subseteq> {a. (k, a) \<in> set acks} then None
      else Some (filter (\<lambda>p. (k, p) \<notin> set acks) peers))"
proof (induction acks arbitrary: st peers)
  case Nil
  then show ?case by (cases peers) (simp_all add: receive_acks_Nil)
next
  case (Cons x acks)
  obtain k' a where x: "x = (k', a)" by (cases x)
  show ?case
  proof (cases "k = k'")
    case False
    with Cons.prems(1) have "map_of (pending_acks (on_ack_received st k' a)) k = Some peers"
      by (simp add: pending_on_ack_other)
    from Cons.IH [OF this Cons.prems(2)] False show ?thesis
      by (simp add: x receive_acks_Cons)
  next
    case True
    let ?st' = "on_ack_received st k a"
    note P = pending_on_ack_present [OF Cons.prems(1), of a]
    have r: "receive_acks st (x # acks) = receive_acks ?st' acks"
      by (simp add: x True receive_acks_Cons)
    show ?thesis
    proof (cases "a \<in> set peers \<and> removeAll a peers = []")
      case True
      with P have "map_of (pending_acks ?st') k = None"
        by simp
      from receive_acks_absent [OF this, of acks]
      have n: "map_of (pending_acks (receive_acks ?st' acks)) k = None" .
      from True have "set peers - {a} = {}"
        by (metis set_removeAll set_empty)
      then have "set peers \<subseteq> {a}" by blast
      with n show ?thesis
        unfolding r by (auto simp: x \<open>k = k'\<close>)
    next
      case False
      let ?peers' = "removeAll a peers"
      from False Cons.prems(2) have ne: "?peers' \<noteq> []"
        by (cases "a \<in> set peers") auto
      from False P have "map_of (pending_acks ?st') k = Some ?peers'"
        by simp
      from Cons.IH [OF this ne]
      have "map_of (pending_acks (receive_acks ?st' acks)) k =
        (if set ?peers' \<subseteq> {a. (k, a) \<in> set acks} then None
         else Some (filter (\<lambda>p. (k, p) \<notin> set acks) ?peers'))" .
      moreover have "(set ?peers' \<subseteq> {a. (k, a) \<in> set acks})
          = (set peers \<subseteq> {b. (k, b) \<in> set ((k, a) # acks)})"
        by auto
      moreover have "filter (\<lambda>p. (k, p) \<notin> set acks) ?peers'
          = filter (\<lambda>p. (k, p) \<notin> set ((k, a) # acks)) peers"
        by (induction peers) auto
      ultimately show ?thesis
        unfolding r by (simp add: x \<open>k = k'\<close> [symmetric])
    qed
  qed
qed

lemma range_py_not_Nil: "0 < n \<Longrightarrow> range_py n \<noteq> []"
  by (simp add: range_py_def)

lemma pending_r_multicast:
  "map_of (pending_acks (fst (r_multicast st c)))
      (mk_message_id (process_id st) (lamport_clock st + 1) c)
     = Some (range_py (total_processes st))"
  by (simp add: r_multicast_def increment_lamport_clock_def Let_def update_conv')

section \<open>Retransmission\<close>

lemma retransmit_one_own:
  assumes "0 \<le> process_id st" "0 \<le> ts"
  shows "retransmit_one st (mk_message_id (process_id st) ts c) =
     Inr (map (\<lambda>target_id. send_message ''DATA'' (mk_message_id (process_id st) ts c) c
                 (process_id st) ts (peer_addr target_id))
            (pending_of (pending_acks st) (mk_message_id (process_id st) ts c)))"
  using assms
  by (simp add: retransmit_one_def split_mk_message_id py_int_str_int)

lemma retransmit_one_foreign:
  assumes "0 \<le> s" "0 \<le> ts" "s \<noteq> process_id st"
  shows "retransmit_one st (mk_message_id s ts c) = Inr []"
  using assms
  by (simp add: retransmit_one_def split_mk_message_id py_int_str_int)

lemma own_pending_init: "0 \<le> pid \<Longrightarrow> own_pending hist (init pid n)"
  by (simp add: own_pending_def init_def)

lemma own_pending_r_multicast:
  assumes "own_pending hist st"
  shows "own_pending (hist @ snd (r_multicast st c)) (fst (r_multicast st c))"
proof -
  let ?ts = "lamport_clock st + 1"
  let ?k = "mk_message_id (process_id st) ?ts c"
  let ?outs = "map (\<lambda>i. send_message ''DATA'' ?k c (process_id st) ?ts (peer_addr i))
                 (range_py (total_processes st))"
  have st': "fst (r_multicast st c) =
      st\<lparr>lamport_clock := ?ts,
         pending_acks := AList.update ?k (range_py (total_processes st)) (pending_acks st)\<rparr>"
    and outs: "snd (r_multicast st c) = ?outs"
    by (simp_all add: r_multicast_def increment_lamport_clock_def Let_def)
  from assms have pid: "0 \<le> process_id st" and clk: "0 \<le> lamport_clock st"
    by (simp_all add: own_pending_def)
  have "\<exists>ts' c'. 0 \<le> ts' \<and> k = mk_message_id (process_id st) ts' c' \<and>
            (\<forall>p \<in> set peers.
               send_message ''DATA'' k c' (process_id st) ts' (peer_addr p) \<in> set (hist @ ?outs))"
    if m: "((map_of (pending_acks st))(?k \<mapsto> range_py (total_processes st))) k = Some peers"
    for k peers
  proof (cases "k = ?k")
    case True
    with m have "peers = range_py (total_processes st)" by simp
    with True clk show ?thesis
      by (intro exI [of _ ?ts] exI [of _ c]) auto
  next
    case False
    with m have "map_of (pending_acks st) k = Some peers" by simp
    with assms obtain ts' c' where "0 \<le> ts'" "k = mk_message_id (process_id st) ts' c'"
      "\<forall>p \<in> set peers. send_message ''DATA'' k c' (process_id st) ts' (peer_addr p) \<in> set hist"
      unfolding own_pending_def by blast
    then show ?thesis
      by (intro exI [of _ ts'] exI [of _ c']) auto
  qed
  with pid clk show ?thesis
    unfolding own_pending_def st' outs by (simp add: update_conv')
qed

lemma own_pending_on_ack:
  assumes "own_pending hist st"
  shows "own_pending hist (on_ack_received st k a)"
proof (cases "map_of (pending_acks st) k")
  case None
  have "process_id (on_ack_received st k a) = process_id st"
    and "lamport_clock (on_ack_received st k a) = lamport_clock st + 1"
    by (simp_all add: on_ack_received_def increment_lamport_clock_def Let_def None)
  with assms pending_on_ack_absent [OF None, of a] show ?thesis
    by (simp add: own_pending_def)
next
  case (Some peers)
  have f: "process_id (on_ack_received st k a) = process_id st"
    and c: "lamport_clock (on_ack_received st k a) = lamport_clock st + 1"
    by (simp_all add: on_ack_received_def increment_lamport_clock_def Let_def Some)
  from assms obtain ts c' where k: "0 \<le> ts" "k = mk_message_id (process_id st) ts c'"
      "\<forall>p \<in> set peers. send_message ''DATA'' k c' (process_id st) ts (peer_addr p) \<in> set hist"
    unfolding own_pending_def using Some by blast
  have "\<exists>ts' c''. 0 \<le> ts' \<and> k' = mk_message_id (process_id st) ts' c'' \<and>
            (\<forall>p \<in> set peers'.
               send_message ''DATA'' k' c'' (process_id st) ts' (peer_addr p) \<in> set hist)"
    if m: "map_of (pending_acks (on_ack_received st k a)) k' = Some peers'" for k' peers'
  proof (cases "k' = k")
    case True
    with m have "set peers' \<subseteq> set peers"
      by (auto simp: pending_on_ack_present [OF Some] split: if_splits)
    with k True show ?thesis
      by (intro exI [of _ ts] exI [of _ c']) auto
  next
    case False
    with m have "map_of (pending_acks st) k' = Some peers'"
      by (simp add: pending_on_ack_other)
    with assms show ?thesis
      unfolding own_pending_def by blast
  qed
  with assms show ?thesis
    unfolding own_pending_def f c by simp
qed

lemma own_pending_on_message_received:
  assumes "own_pending hist st"
  shows "own_pending hist (fst (on_message_received st k c s t))"
  using assms
  by (cases "k \<in> delivered_messages st")
     (auto simp: own_pending_def on_message_received_duplicate on_message_received_fresh)

lemma own_pending_listen:
  "own_pending hist st \<Longrightarrow> own_pending hist (fst (listen_for_messages st m))"
  by (simp add: listen_for_messages_def own_pending_on_ack own_pending_on_message_received)

lemma own_pending_retransmit:
  "own_pending hist st \<Longrightarrow> own_pending hist (fst (retransmit_messages st))"
  by (simp add: retransmit_messages_def own_pending_def split: prod.splits)

lemma retransmit_one_within:
  assumes "own_pending hist st"
  shows "\<exists>sent. retransmit_one st k = Inr sent \<and> set sent \<subseteq> set hist"
proof (cases "map_of (pending_acks st) k")
  case None
  then show ?thesis by (simp add: retransmit_one_def pending_of_def)
next
  case (Some peers)
  with assms obtain ts c where k: "0 \<le> ts" "k = mk_message_id (process_id st) ts c"
      "\<forall>p \<in> set peers. send_message ''DATA'' k c (process_id st) ts (peer_addr p) \<in> set hist"
    and pid: "0 \<le> process_id st"
    unfolding own_pending_def by blast
  have "pending_of (pending_acks st) k = peers"
    by (simp add: pending_of_def Some)
  with retransmit_one_own [OF pid k(1), of c] k(2,3) show ?thesis
    by auto
qed

lemma retransmit_loop_within:
  assumes "own_pending hist st"
  shows "snd (retransmit_loop st ks) = None \<and> set (fst (retransmit_loop st ks)) \<subseteq> set hist"
proof (induction ks)
  case Nil
  then show ?case by simp
next
  case (Cons k ks)
  from retransmit_one_within [OF assms, of k] obtain sent
    where "retransmit_one st k = Inr sent" "set sent \<subseteq> set hist" by blast
  with Cons show ?case
    by (auto split: prod.splits)
qed

lemma retransmit_messages_within:
  "own_pending hist st \<Longrightarrow> set (snd (retransmit_messages st)) \<subseteq> set hist"
  using retransmit_loop_within [of hist st "map fst (pending_acks st)"]
  by (auto simp: retransmit_messages_def split: prod.splits)

lemma retransmissions_original_trace:
  "own_pending hist st \<Longrightarrow> retransmissions_original hist (trace st es)"
proof (induction es arbitrary: st hist)
  case Nil
  then show ?case by simp
next
  case (Cons e es)
  show ?case
  proof (cases e)
    case (Multicast c)
    from Cons.IH [OF own_pending_r_multicast [OF Cons.prems, of c]] Multicast
    show ?thesis by simp
  next
    case (Receive m)
    from Cons.IH [OF own_pending_listen [OF Cons.prems, of m]] Receive
    show ?thesis by simp
  next
    case RetransmitTick
    from Cons.IH [OF own_pending_retransmit [OF Cons.prems]]
      retransmit_messages_within [OF Cons.prems] RetransmitTick
    show ?thesis by (auto simp: list_all_iff)
  qed
qed

section \<open>The claims\<close>

subsection \<open>C1\<close>




subsection \<open>C2\<close>

text \<open>
  C2, as the code has it. The identifier \<^verbatim>\<open>r_multicast\<close> registers is
  \<^verbatim>\<open>"<sender>-<timestamp>-<content>"\<close>: the content is part of it. For identifiers of
  processes and timestamps that are not negative, two identifiers are equal exactly
  when sender, timestamp and content all are. \<^verbatim>\<open>_on_message_received\<close> delivers
  exactly when the identifier string is not in \<^verbatim>\<open>delivered_messages\<close>, whatever
  sender and timestamp the datagram names. Only the gossip process decides by the pair
  (original sender, timestamp) alone.
\<close>

theorem message_identity_is_the_whole_id_string:
  "map_of (pending_acks (fst (r_multicast st c)))
      (str_int (process_id st) @ ''-'' @ str_int (lamport_clock st + 1) @ ''-'' @ c)
     = Some (range_py (total_processes st))
   \<and> (0 \<le> s \<and> 0 \<le> t \<and> 0 \<le> s' \<and> 0 \<le> t' \<longrightarrow>
        (mk_message_id s t c = mk_message_id s' t' c') = (s = s' \<and> t = t' \<and> c = c'))
   \<and> list_ex is_deliver (snd (on_message_received st message_id msg_content s t))
        = (message_id \<notin> delivered_messages st)
   \<and> list_ex is_delivered (snd (handle_receive p m))
        = ((g_original_sender m, g_timestamp m) \<notin> delivered_messages_p p)"
proof -
  have 1: "map_of (pending_acks (fst (r_multicast st c)))
      (str_int (process_id st) @ ''-'' @ str_int (lamport_clock st + 1) @ ''-'' @ c)
     = Some (range_py (total_processes st))"
    by (simp add: r_multicast_def increment_lamport_clock_def Let_def update_conv'
        mk_message_id_def)
  have 2: "0 \<le> s \<and> 0 \<le> t \<and> 0 \<le> s' \<and> 0 \<le> t' \<longrightarrow>
        (mk_message_id s t c = mk_message_id s' t' c') = (s = s' \<and> t = t' \<and> c = c')"
    using mk_message_id_inj [of s t s' t' c c'] by blast
  have 3: "list_ex is_deliver (snd (on_message_received st message_id msg_content s t))
        = (message_id \<notin> delivered_messages st)"
    by (cases "message_id \<in> delivered_messages st")
       (simp_all add: on_message_received_duplicate on_message_received_fresh)
  have 4: "list_ex is_delivered (snd (handle_receive p m))
        = ((g_original_sender m, g_timestamp m) \<notin> delivered_messages_p p)"
    by (cases "(g_original_sender m, g_timestamp m) \<in> delivered_messages_p p")
       (simp_all add: handle_receive_duplicate handle_receive_fresh)
  from 1 2 3 4 show ?thesis by blast
qed

text \<open>
  C2 at concrete identifiers: a different content, or a different timestamp, gives a
  different identifier.
\<close>

theorem message_identity_is_the_whole_id_string_witness:
  "(0::int) \<le> 0 \<and> (0::int) \<le> 1
   \<and> mk_message_id 0 1 ''hello'' = mk_message_id 0 1 ''hello''
   \<and> mk_message_id 0 1 ''hello'' \<noteq> mk_message_id 0 1 ''world''
   \<and> mk_message_id 0 1 ''hello'' \<noteq> mk_message_id 0 2 ''hello''"
  using message_identity_is_the_whole_id_string [where s = 0 and t = 1 and s' = 0 and t' = 1
      and c = "''hello''" and c' = "''world''"]
    message_identity_is_the_whole_id_string [where s = 0 and t = 1 and s' = 0 and t' = 2
      and c = "''hello''" and c' = "''hello''"]
  by simp

text \<open>
  C2 as stated fails: the identifier of the multicast of \<^verbatim>\<open>"hello"\<close> by process 0 at
  clock 1 is \<^verbatim>\<open>"0-1-hello"\<close>, not \<^verbatim>\<open>"0-1"\<close>; another content with the same sender and
  timestamp has another identifier, which the ledger of a process that delivered the
  first does not contain.
\<close>

theorem message_id_pair_only_counterexample:
  "map fst (pending_acks (fst (r_multicast (init 0 3) ''hello''))) = [''0-1-hello'']
   \<and> ''0-1-hello'' \<noteq> ''0-1''
   \<and> mk_message_id 0 1 ''hello'' \<noteq> mk_message_id 0 1 ''world''
   \<and> ''0-1-hello'' \<in> delivered_messages
        (fst (on_message_received (init 1 3) ''0-1-hello'' ''hello'' 0 1))
   \<and> ''0-1-world'' \<notin> delivered_messages
        (fst (on_message_received (init 1 3) ''0-1-hello'' ''hello'' 0 1))"
  by (simp add: r_multicast_def increment_lamport_clock_def init_def Let_def
      mk_message_id_def str_int_def digits.simps digit_char_def on_message_received_fresh)

subsection \<open>C3\<close>




subsection \<open>C4\<close>

text \<open>
  C4. \<^verbatim>\<open>_increment_lamport_clock\<close> (the clock's tick) adds exactly 1 to the counter and
  returns the new value; \<^verbatim>\<open>_update_lamport_clock\<close> (the clock's advance) sets the
  counter to the maximum of the counter and the received timestamp, plus 1, and returns
  the new value. Neither touches another field of the process.
\<close>

theorem clock_tick_and_advance:
  "increment_lamport_clock st = (st\<lparr>lamport_clock := lamport_clock st + 1\<rparr>, lamport_clock st + 1)
   \<and> update_lamport_clock st ts =
       (st\<lparr>lamport_clock := max (lamport_clock st) ts + 1\<rparr>, max (lamport_clock st) ts + 1)"
  by (simp add: increment_lamport_clock_def update_lamport_clock_def Let_def)

subsection \<open>C5\<close>

text \<open>
  C5. A call of \<^verbatim>\<open>r_multicast\<close> ticks the clock to get the timestamp, registers under
  the new message identifier the full set of process identifiers \<open>0 .. total_processes - 1\<close>
  (which holds the sender itself when its identifier is one of them), and sends to each
  of these processes, the sender included, one DATA datagram with that identifier, the
  sender's identifier, the timestamp and the content.
\<close>

theorem r_multicast_registers_and_sends:
  assumes "r_multicast st message_content = (st', outs)"
  shows "lamport_clock st' = lamport_clock st + 1
    \<and> map_of (pending_acks st')
         (mk_message_id (process_id st) (lamport_clock st + 1) message_content)
        = Some (range_py (total_processes st))
    \<and> set (range_py (total_processes st)) = {0..total_processes st - 1}
    \<and> (0 \<le> process_id st \<and> process_id st < total_processes st
         \<longrightarrow> process_id st \<in> set (range_py (total_processes st)))
    \<and> outs = map (\<lambda>i. Send \<lparr> m_type = ''DATA'',
                   m_message_id = mk_message_id (process_id st) (lamport_clock st + 1) message_content,
                   m_content = message_content, m_sender_id = process_id st,
                   m_lamport = lamport_clock st + 1 \<rparr> (''127.0.0.1'', BASE_PORT + i))
               (range_py (total_processes st))"
  using assms
  by (auto simp: r_multicast_def increment_lamport_clock_def Let_def send_message_def
      peer_addr_def update_conv' set_range_py)

text \<open>
  C5 at process 0 of 3 multicasting \<^verbatim>\<open>"hello"\<close> at clock 0.
\<close>

theorem r_multicast_registers_and_sends_witness:
  "r_multicast (init 0 3) ''hello'' =
     ((init 0 3)\<lparr>lamport_clock := 1, pending_acks := [(''0-1-hello'', [0, 1, 2])]\<rparr>,
      map (\<lambda>i. Send \<lparr> m_type = ''DATA'', m_message_id = ''0-1-hello'', m_content = ''hello'',
                       m_sender_id = 0, m_lamport = 1 \<rparr> (''127.0.0.1'', 12000 + i)) [0, 1, 2])
   \<and> map_of [(''0-1-hello'', [0, 1, 2 :: int])] ''0-1-hello'' = Some (range_py 3)
   \<and> (0::int) \<in> set (range_py 3)"
proof -
  have e: "r_multicast (init 0 3) ''hello'' =
     ((init 0 3)\<lparr>lamport_clock := 1, pending_acks := [(''0-1-hello'', [0, 1, 2])]\<rparr>,
      map (\<lambda>i. Send \<lparr> m_type = ''DATA'', m_message_id = ''0-1-hello'', m_content = ''hello'',
                       m_sender_id = 0, m_lamport = 1 \<rparr> (''127.0.0.1'', 12000 + i)) [0, 1, 2])"
    by (simp add: r_multicast_def increment_lamport_clock_def init_def Let_def send_message_def
        peer_addr_def BASE_PORT_def range_py_def upto.simps mk_message_id_def str_int_def
        digits.simps digit_char_def)
  from r_multicast_registers_and_sends [OF e] show ?thesis
    using e by (simp add: init_def mk_message_id_def str_int_def digits.simps digit_char_def)
qed

subsection \<open>C6\<close>

text \<open>
  C6. A DATA datagram whose identifier is already in \<^verbatim>\<open>delivered_messages\<close> is not
  delivered again, leaves \<^verbatim>\<open>delivered_messages\<close> (and the buffer and the pending
  table) as they were, and is answered with exactly one ACK for that identifier, sent to
  the address of the datagram's original sender.
\<close>

theorem duplicate_data_acked_not_delivered:
  assumes "message_id \<in> delivered_messages st"
    and "on_message_received st message_id msg_content original_sender_id original_lamport
          = (st', outs)"
  shows "\<not> list_ex is_deliver outs
    \<and> delivered_messages st' = delivered_messages st
    \<and> buffer_messages st' = buffer_messages st
    \<and> pending_acks st' = pending_acks st
    \<and> outs = [Send \<lparr> m_type = ''ACK'', m_message_id = message_id, m_content = '''',
                      m_sender_id = process_id st, m_lamport = lamport_clock st' \<rparr>
                   (''127.0.0.1'', BASE_PORT + original_sender_id)]"
  using assms(2) unfolding on_message_received_duplicate [OF assms(1)]
  by (auto simp: peer_addr_def)

text \<open>
  C6 at process 1 receiving the datagram \<^verbatim>\<open>"0-1-hello"\<close> a second time.
\<close>

theorem duplicate_data_acked_not_delivered_witness:
  "''0-1-hello'' \<in> delivered_messages (fst (on_message_received (init 1 3) ''0-1-hello'' ''hello'' 0 1))
   \<and> on_message_received (fst (on_message_received (init 1 3) ''0-1-hello'' ''hello'' 0 1))
         ''0-1-hello'' ''hello'' 0 1
       = ((fst (on_message_received (init 1 3) ''0-1-hello'' ''hello'' 0 1))\<lparr>lamport_clock := 4\<rparr>,
          [Send \<lparr> m_type = ''ACK'', m_message_id = ''0-1-hello'', m_content = '''',
                   m_sender_id = 1, m_lamport = 4 \<rparr> (''127.0.0.1'', 12000)])
   \<and> \<not> list_ex is_deliver
          (snd (on_message_received (fst (on_message_received (init 1 3) ''0-1-hello'' ''hello'' 0 1))
                  ''0-1-hello'' ''hello'' 0 1))"
proof -
  let ?S = "fst (on_message_received (init 1 3) ''0-1-hello'' ''hello'' 0 1)"
  have h1: "''0-1-hello'' \<in> delivered_messages ?S"
    by (simp add: on_message_received_fresh init_def)
  have h2: "on_message_received ?S ''0-1-hello'' ''hello'' 0 1
       = (?S\<lparr>lamport_clock := 4\<rparr>,
          [Send \<lparr> m_type = ''ACK'', m_message_id = ''0-1-hello'', m_content = '''',
                   m_sender_id = 1, m_lamport = 4 \<rparr> (''127.0.0.1'', 12000)])"
    by (simp add: on_message_received_duplicate [OF h1])
       (simp add: on_message_received_fresh init_def peer_addr_def BASE_PORT_def)
  from duplicate_data_acked_not_delivered [OF h1 h2] h1 h2 show ?thesis
    by simp
qed

subsection \<open>C7\<close>

text \<open>
  C7. An ACK for an identifier that is not in \<^verbatim>\<open>pending_acks\<close> leaves the table as
  it was. For an identifier in the table, the acknowledging process is removed from the
  identifier's set, and the entry is deleted exactly when this removal empties the set;
  the other entries stay. After \<^verbatim>\<open>r_multicast\<close> in a group of at least one process,
  the entry of the new identifier is gone after a run of ACKs exactly when every process
  of \<open>0 .. total_processes - 1\<close> has acknowledged that identifier at least once.
\<close>

theorem ack_bookkeeping:
  "(map_of (pending_acks st) message_id = None \<longrightarrow>
      pending_acks (on_ack_received st message_id ack_sender_id) = pending_acks st)
   \<and> (map_of (pending_acks st) message_id = Some peers \<longrightarrow>
        map_of (pending_acks (on_ack_received st message_id ack_sender_id)) =
          (map_of (pending_acks st))
            (message_id := if ack_sender_id \<in> set peers \<and> removeAll ack_sender_id peers = []
                           then None else Some (removeAll ack_sender_id peers))
        \<and> set (removeAll ack_sender_id peers) = set peers - {ack_sender_id})
   \<and> (0 < total_processes st \<longrightarrow>
        (map_of (pending_acks (receive_acks (fst (r_multicast st c)) acks))
            (mk_message_id (process_id st) (lamport_clock st + 1) c) = None)
        = ({0..total_processes st - 1}
             \<subseteq> {a. (mk_message_id (process_id st) (lamport_clock st + 1) c, a) \<in> set acks}))"
proof -
  have 3: "0 < total_processes st \<longrightarrow>
        (map_of (pending_acks (receive_acks (fst (r_multicast st c)) acks))
            (mk_message_id (process_id st) (lamport_clock st + 1) c) = None)
        = ({0..total_processes st - 1}
             \<subseteq> {a. (mk_message_id (process_id st) (lamport_clock st + 1) c, a) \<in> set acks})"
  proof
    assume n: "0 < total_processes st"
    from receive_acks_present [OF pending_r_multicast range_py_not_Nil [OF n]]
    show "(map_of (pending_acks (receive_acks (fst (r_multicast st c)) acks))
            (mk_message_id (process_id st) (lamport_clock st + 1) c) = None)
        = ({0..total_processes st - 1}
             \<subseteq> {a. (mk_message_id (process_id st) (lamport_clock st + 1) c, a) \<in> set acks})"
      by (simp add: set_range_py)
  qed
  show ?thesis
    using 3 pending_on_ack_absent [of st message_id ack_sender_id]
      pending_on_ack_present [of st message_id peers ack_sender_id]
    by simp
qed

text \<open>
  C7 at process 0 of 3 after multicasting \<^verbatim>\<open>"hello"\<close>: a foreign ACK, one ACK, and runs
  of ACKs with and without the one of process 0.
\<close>

theorem ack_bookkeeping_witness:
  "map_of (pending_acks (fst (r_multicast (init 0 3) ''hello''))) ''9-9-x'' = None
   \<and> pending_acks (on_ack_received (fst (r_multicast (init 0 3) ''hello'')) ''9-9-x'' 1)
       = pending_acks (fst (r_multicast (init 0 3) ''hello''))
   \<and> map_of (pending_acks (fst (r_multicast (init 0 3) ''hello''))) ''0-1-hello'' = Some [0, 1, 2]
   \<and> map_of (pending_acks (on_ack_received (fst (r_multicast (init 0 3) ''hello''))
                ''0-1-hello'' 1)) ''0-1-hello'' = Some [0, 2]
   \<and> 0 < total_processes (init 0 3)
   \<and> map_of (pending_acks (receive_acks (fst (r_multicast (init 0 3) ''hello''))
                [(''0-1-hello'', 1), (''0-1-hello'', 1), (''0-1-hello'', 2), (''0-1-hello'', 0)]))
        ''0-1-hello'' = None
   \<and> map_of (pending_acks (receive_acks (fst (r_multicast (init 0 3) ''hello''))
                [(''0-1-hello'', 1), (''0-1-hello'', 1), (''0-1-hello'', 2)]))
        ''0-1-hello'' \<noteq> None"
proof -
  let ?s1 = "fst (r_multicast (init 0 3) ''hello'')"
  have id: "mk_message_id 0 1 ''hello'' = ''0-1-hello''"
    by (simp add: mk_message_id_def str_int_def digits.simps digit_char_def)
  have f: "process_id (init 0 3) = 0" "lamport_clock (init 0 3) = 0" "total_processes (init 0 3) = 3"
    by (simp_all add: init_def)
  have p: "pending_acks ?s1 = [(''0-1-hello'', [0, 1, 2])]"
    by (simp add: r_multicast_def increment_lamport_clock_def Let_def f id range_py_def upto.simps)
       (simp add: init_def)
  have h1: "map_of (pending_acks ?s1) ''9-9-x'' = None"
    and h2: "map_of (pending_acks ?s1) ''0-1-hello'' = Some [0, 1, 2]"
    by (simp_all add: p)
  from ack_bookkeeping [where st = ?s1 and message_id = "''9-9-x''" and ack_sender_id = 1] h1
  have a: "pending_acks (on_ack_received ?s1 ''9-9-x'' 1) = pending_acks ?s1"
    by blast
  from ack_bookkeeping [where st = ?s1 and message_id = "''0-1-hello''" and ack_sender_id = 1
      and peers = "[0, 1, 2]"] h2
  have b: "map_of (pending_acks (on_ack_received ?s1 ''0-1-hello'' 1)) ''0-1-hello'' = Some [0, 2]"
    by simp
  have s: "{0..(2::int)} = {0, 1, 2}" by auto
  from ack_bookkeeping [where st = "init 0 3" and c = "''hello''"
      and acks = "[(''0-1-hello'', 1), (''0-1-hello'', 1), (''0-1-hello'', 2), (''0-1-hello'', 0)]"]
  have c: "map_of (pending_acks (receive_acks ?s1
                [(''0-1-hello'', 1), (''0-1-hello'', 1), (''0-1-hello'', 2), (''0-1-hello'', 0)]))
        ''0-1-hello'' = None"
    by (simp add: f id s)
  from ack_bookkeeping [where st = "init 0 3" and c = "''hello''"
      and acks = "[(''0-1-hello'', 1), (''0-1-hello'', 1), (''0-1-hello'', 2)]"]
  have d: "map_of (pending_acks (receive_acks ?s1
                [(''0-1-hello'', 1), (''0-1-hello'', 1), (''0-1-hello'', 2)]))
        ''0-1-hello'' \<noteq> None"
    by (simp add: f id s)
  from h1 a h2 b c d show ?thesis by (simp add: f)
qed

subsection \<open>C8\<close>

text \<open>
  C8. For a process whose identifier and clock are not negative: for an identifier its
  \<^verbatim>\<open>r_multicast\<close> made, the retransmitter sends, to exactly the processes still pending
  under that identifier, the DATA datagram \<^verbatim>\<open>r_multicast\<close> sent (same identifier,
  sender, timestamp and content). For an identifier of another sender it sends nothing.
  A retransmission round does not move the clock. Over any lifetime of a process started
  with an identifier that is not negative, every datagram a retransmission round sends
  was sent before, to the same address, by a multicast of this process.
\<close>

theorem retransmission_resends_original:
  "(0 \<le> process_id st \<and> 0 \<le> lamport_clock st \<and> process_id st2 = process_id st
      \<and> map_of (pending_acks st2) (mk_message_id (process_id st) (lamport_clock st + 1) c)
          = Some peers \<longrightarrow>
      retransmit_one st2 (mk_message_id (process_id st) (lamport_clock st + 1) c)
        = Inr (map (\<lambda>p. Send \<lparr> m_type = ''DATA'',
                   m_message_id = mk_message_id (process_id st) (lamport_clock st + 1) c,
                   m_content = c, m_sender_id = process_id st,
                   m_lamport = lamport_clock st + 1 \<rparr> (''127.0.0.1'', BASE_PORT + p)) peers)
      \<and> snd (r_multicast st c)
        = map (\<lambda>p. Send \<lparr> m_type = ''DATA'',
                   m_message_id = mk_message_id (process_id st) (lamport_clock st + 1) c,
                   m_content = c, m_sender_id = process_id st,
                   m_lamport = lamport_clock st + 1 \<rparr> (''127.0.0.1'', BASE_PORT + p))
            (range_py (total_processes st)))
   \<and> (0 \<le> s \<and> 0 \<le> ts \<and> s \<noteq> process_id st \<longrightarrow>
        retransmit_one st (mk_message_id s ts c) = Inr [])
   \<and> lamport_clock (fst (retransmit_messages st)) = lamport_clock st
   \<and> pending_acks (fst (retransmit_messages st)) = pending_acks st
   \<and> (0 \<le> pid \<longrightarrow> retransmissions_original [] (trace (init pid n) es))"
proof -
  have 1: "retransmit_one st2 (mk_message_id (process_id st) (lamport_clock st + 1) c)
        = Inr (map (\<lambda>p. Send \<lparr> m_type = ''DATA'',
                   m_message_id = mk_message_id (process_id st) (lamport_clock st + 1) c,
                   m_content = c, m_sender_id = process_id st,
                   m_lamport = lamport_clock st + 1 \<rparr> (''127.0.0.1'', BASE_PORT + p)) peers)"
    if "0 \<le> process_id st" "0 \<le> lamport_clock st" "process_id st2 = process_id st"
      "map_of (pending_acks st2) (mk_message_id (process_id st) (lamport_clock st + 1) c) = Some peers"
  proof -
    from that have "0 \<le> process_id st2" "0 \<le> lamport_clock st + 1" by simp_all
    from retransmit_one_own [OF this, of c] that(3,4) show ?thesis
      by (simp add: pending_of_def send_message_def peer_addr_def)
  qed
  have 2: "snd (r_multicast st c)
        = map (\<lambda>p. Send \<lparr> m_type = ''DATA'',
                   m_message_id = mk_message_id (process_id st) (lamport_clock st + 1) c,
                   m_content = c, m_sender_id = process_id st,
                   m_lamport = lamport_clock st + 1 \<rparr> (''127.0.0.1'', BASE_PORT + p))
            (range_py (total_processes st))"
    by (simp add: r_multicast_def increment_lamport_clock_def Let_def send_message_def
        peer_addr_def)
  have 3: "retransmit_one st (mk_message_id s ts c) = Inr []"
    if "0 \<le> s" "0 \<le> ts" "s \<noteq> process_id st"
    using that by (rule retransmit_one_foreign)
  have 4: "retransmissions_original [] (trace (init pid n) es)" if "0 \<le> pid"
    using that by (intro retransmissions_original_trace own_pending_init)
  have 5: "lamport_clock (fst (retransmit_messages st)) = lamport_clock st"
    and 6: "pending_acks (fst (retransmit_messages st)) = pending_acks st"
    by (simp_all add: retransmit_messages_def split: prod.splits)
  from 1 2 3 4 5 6 show ?thesis by blast
qed

text \<open>
  C8 at process 0 of 3: after multicasting \<^verbatim>\<open>"hello"\<close> and the ACK of process 1, the
  retransmitter sends the original datagram to processes 0 and 2; an entry of sender 1
  is not retransmitted.
\<close>

theorem retransmission_resends_original_witness:
  "map_of (pending_acks (on_ack_received (fst (r_multicast (init 0 3) ''hello'')) ''0-1-hello'' 1))
      ''0-1-hello'' = Some [0, 2]
   \<and> retransmit_one (on_ack_received (fst (r_multicast (init 0 3) ''hello'')) ''0-1-hello'' 1)
        ''0-1-hello''
      = Inr [Send \<lparr> m_type = ''DATA'', m_message_id = ''0-1-hello'', m_content = ''hello'',
                     m_sender_id = 0, m_lamport = 1 \<rparr> (''127.0.0.1'', 12000),
             Send \<lparr> m_type = ''DATA'', m_message_id = ''0-1-hello'', m_content = ''hello'',
                     m_sender_id = 0, m_lamport = 1 \<rparr> (''127.0.0.1'', 12002)]
   \<and> snd (r_multicast (init 0 3) ''hello'')
      = [Send \<lparr> m_type = ''DATA'', m_message_id = ''0-1-hello'', m_content = ''hello'',
                 m_sender_id = 0, m_lamport = 1 \<rparr> (''127.0.0.1'', 12000),
         Send \<lparr> m_type = ''DATA'', m_message_id = ''0-1-hello'', m_content = ''hello'',
                 m_sender_id = 0, m_lamport = 1 \<rparr> (''127.0.0.1'', 12001),
         Send \<lparr> m_type = ''DATA'', m_message_id = ''0-1-hello'', m_content = ''hello'',
                 m_sender_id = 0, m_lamport = 1 \<rparr> (''127.0.0.1'', 12002)]
   \<and> (1::int) \<noteq> process_id ((init 0 3)\<lparr>pending_acks := [(''1-1-x'', [0, 1, 2])]\<rparr>)
   \<and> retransmit_one ((init 0 3)\<lparr>pending_acks := [(''1-1-x'', [0, 1, 2])]\<rparr>) ''1-1-x'' = Inr []
   \<and> retransmissions_original []
        (trace (init 0 3)
           [Multicast ''hello'',
            Receive \<lparr> m_type = ''ACK'', m_message_id = ''0-1-hello'', m_content = '''',
                      m_sender_id = 1, m_lamport = 4 \<rparr>,
            RetransmitTick])
   \<and> snd (retransmit_messages
        (on_ack_received (fst (r_multicast (init 0 3) ''hello'')) ''0-1-hello'' 1))
      = [Send \<lparr> m_type = ''DATA'', m_message_id = ''0-1-hello'', m_content = ''hello'',
                 m_sender_id = 0, m_lamport = 1 \<rparr> (''127.0.0.1'', 12000),
         Send \<lparr> m_type = ''DATA'', m_message_id = ''0-1-hello'', m_content = ''hello'',
                 m_sender_id = 0, m_lamport = 1 \<rparr> (''127.0.0.1'', 12002)]"
proof -
  let ?s1 = "fst (r_multicast (init 0 3) ''hello'')"
  let ?s2 = "on_ack_received ?s1 ''0-1-hello'' 1"
  let ?f = "(init 0 3)\<lparr>pending_acks := [(''1-1-x'', [0, 1, 2])]\<rparr>"
  have id: "mk_message_id 0 1 ''hello'' = ''0-1-hello''"
    and idx: "mk_message_id 1 1 ''x'' = ''1-1-x''"
    by (simp_all add: mk_message_id_def str_int_def digits.simps digit_char_def)
  have f: "process_id (init 0 3) = 0" "lamport_clock (init 0 3) = 0" "total_processes (init 0 3) = 3"
    by (simp_all add: init_def)
  have p1: "pending_acks ?s1 = [(''0-1-hello'', [0, 1, 2])]"
    by (simp add: r_multicast_def increment_lamport_clock_def Let_def f id range_py_def upto.simps)
       (simp add: init_def)
  have p2: "pending_acks ?s2 = [(''0-1-hello'', [0, 2])]"
    by (simp add: on_ack_received_def increment_lamport_clock_def Let_def p1)
  have pid2: "process_id ?s2 = process_id (init 0 3)"
    by (simp add: on_ack_received_def r_multicast_def increment_lamport_clock_def Let_def
        split: option.splits)
  have alive2: "retransmitter_alive ?s2"
    by (simp add: on_ack_received_def r_multicast_def increment_lamport_clock_def Let_def
        init_def split: option.splits)
  have h1: "map_of (pending_acks ?s2) ''0-1-hello'' = Some [0, 2]"
    by (simp add: p2)
  from retransmission_resends_original [where st = "init 0 3" and ?st2.0 = ?s2
      and c = "''hello''" and peers = "[0, 2]"] pid2 h1
  have r1: "retransmit_one ?s2 ''0-1-hello''
      = Inr [Send \<lparr> m_type = ''DATA'', m_message_id = ''0-1-hello'', m_content = ''hello'',
                     m_sender_id = 0, m_lamport = 1 \<rparr> (''127.0.0.1'', 12000),
             Send \<lparr> m_type = ''DATA'', m_message_id = ''0-1-hello'', m_content = ''hello'',
                     m_sender_id = 0, m_lamport = 1 \<rparr> (''127.0.0.1'', 12002)]"
    and r2: "snd (r_multicast (init 0 3) ''hello'')
      = [Send \<lparr> m_type = ''DATA'', m_message_id = ''0-1-hello'', m_content = ''hello'',
                 m_sender_id = 0, m_lamport = 1 \<rparr> (''127.0.0.1'', 12000),
         Send \<lparr> m_type = ''DATA'', m_message_id = ''0-1-hello'', m_content = ''hello'',
                 m_sender_id = 0, m_lamport = 1 \<rparr> (''127.0.0.1'', 12001),
         Send \<lparr> m_type = ''DATA'', m_message_id = ''0-1-hello'', m_content = ''hello'',
                 m_sender_id = 0, m_lamport = 1 \<rparr> (''127.0.0.1'', 12002)]"
    by (simp_all add: f id BASE_PORT_def range_py_def upto.simps)
  have h2: "(1::int) \<noteq> process_id ?f"
    by (simp add: init_def)
  from retransmission_resends_original [where st = ?f and s = 1 and ts = 1 and c = "''x''"] h2
  have r3: "retransmit_one ?f ''1-1-x'' = Inr []"
    by (simp add: idx)
  from retransmission_resends_original [where pid = 0 and n = 3 and es =
      "[Multicast ''hello'',
        Receive \<lparr> m_type = ''ACK'', m_message_id = ''0-1-hello'', m_content = '''',
                  m_sender_id = 1, m_lamport = 4 \<rparr>,
        RetransmitTick]"]
  have r4: "retransmissions_original []
        (trace (init 0 3)
           [Multicast ''hello'',
            Receive \<lparr> m_type = ''ACK'', m_message_id = ''0-1-hello'', m_content = '''',
                      m_sender_id = 1, m_lamport = 4 \<rparr>,
            RetransmitTick])"
    by simp
  have r5: "snd (retransmit_messages ?s2)
      = [Send \<lparr> m_type = ''DATA'', m_message_id = ''0-1-hello'', m_content = ''hello'',
                 m_sender_id = 0, m_lamport = 1 \<rparr> (''127.0.0.1'', 12000),
         Send \<lparr> m_type = ''DATA'', m_message_id = ''0-1-hello'', m_content = ''hello'',
                 m_sender_id = 0, m_lamport = 1 \<rparr> (''127.0.0.1'', 12002)]"
    by (simp add: retransmit_messages_def alive2 p2 r1)
  from h1 r1 r2 h2 r3 r4 r5 show ?thesis by simp
qed

subsection \<open>C9\<close>

text \<open>
  C9. Handling a DATA datagram whose identifier is not yet in \<^verbatim>\<open>delivered_messages\<close>
  applies \<^verbatim>\<open>_update_lamport_clock\<close> twice with the same timestamp, once on receipt and
  once in \<^verbatim>\<open>r_deliver\<close>: the clock ends at the maximum of the former clock and the
  timestamp, plus 2.
\<close>

theorem fresh_delivery_advances_clock_twice:
  assumes "message_id \<notin> delivered_messages st"
  shows "lamport_clock
           (fst (on_message_received st message_id msg_content original_sender_id original_lamport))
         = snd (update_lamport_clock (fst (update_lamport_clock st original_lamport)) original_lamport)
    \<and> lamport_clock
           (fst (on_message_received st message_id msg_content original_sender_id original_lamport))
         = max (lamport_clock st) original_lamport + 2"
  unfolding on_message_received_fresh [OF assms]
  by (simp add: update_lamport_clock_def Let_def max_def)

text \<open>
  C9 at a fresh process (clock 0 to 3) and at a process whose clock is 7 (to 9), both
  receiving a datagram stamped 1.
\<close>

theorem fresh_delivery_advances_clock_twice_witness:
  "''0-1-hello'' \<notin> delivered_messages (init 1 3)
   \<and> lamport_clock (fst (on_message_received (init 1 3) ''0-1-hello'' ''hello'' 0 1)) = 3
   \<and> lamport_clock ((init 1 3)\<lparr>lamport_clock := 7\<rparr>) = 7
   \<and> lamport_clock (fst (on_message_received ((init 1 3)\<lparr>lamport_clock := 7\<rparr>)
                           ''0-1-hello'' ''hello'' 0 1)) = 9"
proof -
  have h1: "''0-1-hello'' \<notin> delivered_messages (init 1 3)"
    by (simp add: init_def)
  have h2: "''0-1-hello'' \<notin> delivered_messages ((init 1 3)\<lparr>lamport_clock := 7\<rparr>)"
    by (simp add: init_def)
  from fresh_delivery_advances_clock_twice [OF h1, of "''hello''" 0 1]
    fresh_delivery_advances_clock_twice [OF h2, of "''hello''" 0 1] h1
  show ?thesis by (simp add: init_def)
qed

subsection \<open>C10\<close>

text \<open>
  C10. A first-time DATA datagram stores its content, sender and timestamp in
  \<^verbatim>\<open>buffer_messages\<close> under its identifier. Over any lifetime the keys of
  \<^verbatim>\<open>buffer_messages\<close> only grow, and when they start within \<^verbatim>\<open>delivered_messages\<close>
  (as they do in a fresh process) no entry ever changes. Nothing reads the buffer:
  replacing it changes neither what a lifetime sends and delivers nor any other field of
  the final state.
\<close>

theorem buffer_messages_only_grows:
  "(message_id \<notin> delivered_messages st \<longrightarrow>
      buffer_messages (fst (on_message_received st message_id msg_content original_sender_id
                              original_lamport)) message_id
        = Some \<lparr> b_content = msg_content, b_sender_id = original_sender_id,
                 b_lamport = original_lamport \<rparr>)
   \<and> dom (buffer_messages st) \<subseteq> dom (buffer_messages (final st es))
   \<and> (dom (buffer_messages st) \<subseteq> delivered_messages st \<longrightarrow>
        buffer_messages st \<subseteq>\<^sub>m buffer_messages (final st es))
   \<and> outputs (trace (st\<lparr>buffer_messages := b\<rparr>) es) = outputs (trace st es)
   \<and> (final (st\<lparr>buffer_messages := b\<rparr>) es)\<lparr>buffer_messages := Map.empty\<rparr>
       = (final st es)\<lparr>buffer_messages := Map.empty\<rparr>"
  using buffer_final_dom [of st es] buffer_final_le [of st es]
    trace_ignores_buffer [where st = st and b = b and es = es]
  by (simp add: on_message_received_fresh)

text \<open>
  C10 at process 1: the entry of \<^verbatim>\<open>"0-1-hello"\<close> is stored, and stays while a second
  message and a duplicate arrive.
\<close>

theorem buffer_messages_only_grows_witness:
  "''0-1-hello'' \<notin> delivered_messages (init 1 3)
   \<and> buffer_messages (fst (on_message_received (init 1 3) ''0-1-hello'' ''hello'' 0 1)) ''0-1-hello''
       = Some \<lparr> b_content = ''hello'', b_sender_id = 0, b_lamport = 1 \<rparr>
   \<and> dom (buffer_messages (fst (on_message_received (init 1 3) ''0-1-hello'' ''hello'' 0 1)))
       \<subseteq> delivered_messages (fst (on_message_received (init 1 3) ''0-1-hello'' ''hello'' 0 1))
   \<and> buffer_messages (fst (on_message_received (init 1 3) ''0-1-hello'' ''hello'' 0 1))
       \<subseteq>\<^sub>m buffer_messages
            (final (fst (on_message_received (init 1 3) ''0-1-hello'' ''hello'' 0 1))
               [Receive \<lparr> m_type = ''DATA'', m_message_id = ''0-2-world'', m_content = ''world'',
                          m_sender_id = 0, m_lamport = 2 \<rparr>,
                Receive \<lparr> m_type = ''DATA'', m_message_id = ''0-1-hello'', m_content = ''hello'',
                          m_sender_id = 0, m_lamport = 1 \<rparr>])
   \<and> dom (buffer_messages
            (final (fst (on_message_received (init 1 3) ''0-1-hello'' ''hello'' 0 1))
               [Receive \<lparr> m_type = ''DATA'', m_message_id = ''0-2-world'', m_content = ''world'',
                          m_sender_id = 0, m_lamport = 2 \<rparr>,
                Receive \<lparr> m_type = ''DATA'', m_message_id = ''0-1-hello'', m_content = ''hello'',
                          m_sender_id = 0, m_lamport = 1 \<rparr>]))
       = {''0-1-hello'', ''0-2-world''}"
proof -
  let ?s1 = "fst (on_message_received (init 1 3) ''0-1-hello'' ''hello'' 0 1)"
  let ?es = "[Receive \<lparr> m_type = ''DATA'', m_message_id = ''0-2-world'', m_content = ''world'',
                          m_sender_id = 0, m_lamport = 2 \<rparr>,
                Receive \<lparr> m_type = ''DATA'', m_message_id = ''0-1-hello'', m_content = ''hello'',
                          m_sender_id = 0, m_lamport = 1 \<rparr>]"
  have h1: "''0-1-hello'' \<notin> delivered_messages (init 1 3)"
    by (simp add: init_def)
  have h2: "dom (buffer_messages ?s1) \<subseteq> delivered_messages ?s1"
    by (simp add: on_message_received_fresh [OF h1]) (simp add: init_def)
  from buffer_messages_only_grows [where st = "init 1 3" and message_id = "''0-1-hello''"
      and msg_content = "''hello''" and original_sender_id = 0 and original_lamport = 1] h1
  have a: "buffer_messages ?s1 ''0-1-hello''
       = Some \<lparr> b_content = ''hello'', b_sender_id = 0, b_lamport = 1 \<rparr>"
    by blast
  from buffer_messages_only_grows [where st = ?s1 and es = ?es] h2
  have b: "buffer_messages ?s1 \<subseteq>\<^sub>m buffer_messages (final ?s1 ?es)"
    by blast
  have c: "dom (buffer_messages (final ?s1 ?es)) = {''0-1-hello'', ''0-2-world''}"
    by (simp add: final_def listen_for_messages_def on_message_received_fresh [OF h1]
        on_message_received_fresh on_message_received_duplicate init_def)
       auto
  from h1 a h2 b c show ?thesis by blast
qed

end
